theory Spec2Isabelle
  imports Complex_Main
begin

section \<open>Data model\<close>

text \<open>
  The program under verification is \<^verbatim>\<open>Backend/retrieval.py\<close>. Its listing table is a
  pandas DataFrame; a row is modelled as a record of the seven columns the retrieval
  function reads or returns. Python numbers are modelled exactly: the \<^verbatim>\<open>size\<close> column as
  \<open>int\<close>, prices as \<open>real\<close> (the rounding of IEEE doubles and of the float32 vectors of
  the ranking stage is not modelled). Strings are lists of ASCII characters. A cell of
  the \<^verbatim>\<open>location\<close> column may be missing (\<open>None\<close>): the source passes \<^verbatim>\<open>na=False\<close> for it.
  Every other cell is present and of the type of its column; columns of the table that
  the function never reads are left out. The fields of a query may be \<^verbatim>\<open>None\<close>, as the
  extractor leaves them when it finds nothing.
\<close>

record listing =
  link :: string
  size_n :: int
  price :: real
  location :: "string option"
  amenities :: "string list"
  description :: string
  building_name :: string

text \<open>Line 82 of the source adds the derived column \<^verbatim>\<open>amenities_str\<close> to the filtered table.\<close>

record candidate = listing +
  amenities_str :: string

text \<open>
  The exceptions the function can raise, and its two kinds of return value: a bare
  string on the three empty branches, a table of the seven projected columns otherwise.
\<close>

datatype error = AttributeError | TypeError | ValueError | ReError | IndexError

datatype result = Message string | Table "listing list"

section \<open>Strings\<close>

text \<open>\<^verbatim>\<open>str.lower()\<close> on ASCII text.\<close>

definition lower_char :: "char \<Rightarrow> char" where
  "lower_char c =
     (case map_of (zip ''ABCDEFGHIJKLMNOPQRSTUVWXYZ'' ''abcdefghijklmnopqrstuvwxyz'') c of
        Some l \<Rightarrow> l
      | None \<Rightarrow> c)"

definition lower :: "string \<Rightarrow> string" where
  "lower s = map lower_char s"

text \<open>\<^verbatim>\<open>" ".join(xs)\<close>\<close>

fun join_space :: "string list \<Rightarrow> string" where
  "join_space [] = []"
| "join_space [x] = x"
| "join_space (x # y # ys) = x @ '' '' @ join_space (y # ys)"

subsection \<open>\<^verbatim>\<open>Series.str.contains(pat, na=False)\<close>\<close>

text \<open>
  pandas' \<^verbatim>\<open>str.contains\<close> has \<^verbatim>\<open>regex=True\<close> by default: the pattern is compiled once as a
  regular expression (an invalid pattern raises \<^verbatim>\<open>re.error\<close>) and searched in every cell,
  a missing cell giving \<^verbatim>\<open>na\<close>, here \<open>False\<close>. The characters below are the special
  characters of Python's \<^verbatim>\<open>re\<close> syntax. A pattern made of ordinary characters and the
  wildcard \<^verbatim>\<open>.\<close> (any character but a newline) is matched by the functions written out
  here; for any other pattern the regular-expression engine is the parameter
  \<open>re_compile\<close>, which returns \<open>None\<close> where \<^verbatim>\<open>re.compile\<close> raises.
\<close>

definition regex_special :: "char list" where
  "regex_special =
     [CHR ''.'', CHR ''^'', CHR ''$'', CHR ''*'', CHR ''+'', CHR ''?'', CHR ''{'', CHR ''}'',
      CHR ''['', CHR '']'', CHR 0x5C, CHR ''|'', CHR ''('', CHR '')'']"

definition literal_pattern :: "string \<Rightarrow> bool" where
  "literal_pattern pat = list_all (\<lambda>c. c \<notin> set regex_special) pat"

definition simple_pattern :: "string \<Rightarrow> bool" where
  "simple_pattern pat = list_all (\<lambda>c. c = CHR ''.'' \<or> c \<notin> set regex_special) pat"

fun match_here :: "string \<Rightarrow> string \<Rightarrow> bool" where
  "match_here [] s = True"
| "match_here (p # ps) [] = False"
| "match_here (p # ps) (c # cs) =
     ((if p = CHR ''.'' then c \<noteq> CHR 0x0A else p = c) \<and> match_here ps cs)"

fun re_search :: "string \<Rightarrow> string \<Rightarrow> bool" where
  "re_search pat [] = match_here pat []"
| "re_search pat (c # cs) = (match_here pat (c # cs) \<or> re_search pat cs)"

type_synonym regex_engine = "string \<Rightarrow> (string \<Rightarrow> bool) option"

definition str_contains :: "regex_engine \<Rightarrow> string \<Rightarrow> (string option \<Rightarrow> bool) option" where
  "str_contains re_compile pat =
     (if simple_pattern pat
      then Some (\<lambda>cell. case cell of None \<Rightarrow> False | Some s \<Rightarrow> re_search pat s)
      else map_option (\<lambda>m cell. case cell of None \<Rightarrow> False | Some s \<Rightarrow> m s)
             (re_compile pat))"

text \<open>
  The substring test the specification speaks of (Python's \<^verbatim>\<open>pat in s\<close>), for comparison.
\<close>

fun is_substring :: "string \<Rightarrow> string \<Rightarrow> bool" where
  "is_substring pat [] = (pat = [])"
| "is_substring pat (c # cs) = (take (length pat) (c # cs) = pat \<or> is_substring pat cs)"

section \<open>The structured filter (lines 63--80)\<close>

text \<open>\<^verbatim>\<open>drop_duplicates(subset=["link"], keep="first")\<close>\<close>

fun drop_duplicates :: "('a listing_scheme) list \<Rightarrow> ('a listing_scheme) list" where
  "drop_duplicates [] = []"
| "drop_duplicates (r # rs) = r # drop_duplicates (filter (\<lambda>x. link x \<noteq> link r) rs)"

text \<open>
  Line 63: \<^verbatim>\<open>df[df["size"] == user_size]\<close>. A \<open>None\<close> query size equals no cell.
\<close>

definition size_stage :: "listing list \<Rightarrow> int option \<Rightarrow> listing list" where
  "size_stage df user_size = filter (\<lambda>r. Some (size_n r) = user_size) df"

text \<open>Lines 67--73, for the lower-cased query location \<open>loc\<close>.\<close>

definition exact_match :: "listing list \<Rightarrow> string \<Rightarrow> listing list" where
  "exact_match df_filtered loc = filter (\<lambda>r. location r = Some loc) df_filtered"

definition partial_match :: "(string option \<Rightarrow> bool) \<Rightarrow> listing list \<Rightarrow> listing list" where
  "partial_match contains df_filtered = filter (\<lambda>r. contains (location r)) df_filtered"

definition location_stage ::
  "(string option \<Rightarrow> bool) \<Rightarrow> listing list \<Rightarrow> string \<Rightarrow> listing list" where
  "location_stage contains df_filtered loc =
     drop_duplicates (exact_match df_filtered loc @ partial_match contains df_filtered)"

text \<open>Lines 77--78.\<close>

definition upper_price_limit :: "real \<Rightarrow> real" where
  "upper_price_limit user_price = user_price * 1.05"

definition price_stage :: "listing list \<Rightarrow> real \<Rightarrow> listing list" where
  "price_stage df_filtered user_price =
     filter (\<lambda>r. price r \<le> upper_price_limit user_price) df_filtered"

text \<open>
  The three steps in the order of the source. \<open>Inl\<close> is an exception; \<open>Inr (Inl m)\<close> is
  the early return of the string \<open>m\<close>; \<open>Inr (Inr rows)\<close> is the table that reaches line
  82. \<^verbatim>\<open>user_location.lower()\<close> raises \<^verbatim>\<open>AttributeError\<close> on \<^verbatim>\<open>None\<close>, and
  \<^verbatim>\<open>user_price * 1.05\<close> raises \<^verbatim>\<open>TypeError\<close> on \<^verbatim>\<open>None\<close>; each is evaluated only when the
  steps before it left rows.
\<close>

definition msg_size :: string where
  "msg_size = ''No properties found with the given size.''"

definition msg_location :: string where
  "msg_location = ''No properties found in the specified location.''"

definition msg_price :: string where
  "msg_price = ''No properties found within the price range.''"

definition structured_filter ::
  "regex_engine \<Rightarrow> listing list \<Rightarrow> int option \<Rightarrow> real option \<Rightarrow> string option
     \<Rightarrow> error + (string + listing list)" where
  "structured_filter re_compile df user_size user_price user_location =
     (let by_size = size_stage df user_size in
      if by_size = [] then Inr (Inl msg_size)
      else
        (case user_location of
           None \<Rightarrow> Inl AttributeError
         | Some l \<Rightarrow>
             (case str_contains re_compile (lower l) of
                None \<Rightarrow> Inl ReError
              | Some contains \<Rightarrow>
                  (let by_location = location_stage contains by_size (lower l) in
                   if by_location = [] then Inr (Inl msg_location)
                   else
                     (case user_price of
                        None \<Rightarrow> Inl TypeError
                      | Some p \<Rightarrow>
                          (let by_price = price_stage by_location p in
                           if by_price = [] then Inr (Inl msg_price)
                           else Inr (Inr by_price)))))))"

section \<open>The text ranker (lines 82--97)\<close>

text \<open>Line 82: \<^verbatim>\<open>df_filtered["amenities"].apply(lambda x: " ".join(x))\<close>\<close>

definition add_amenities_str :: "listing \<Rightarrow> candidate" where
  "add_amenities_str r = listing.extend r (candidate.fields (join_space (amenities r)))"

subsection \<open>\<^verbatim>\<open>TfidfVectorizer().fit_transform\<close>\<close>

text \<open>
  The vectorizer is built with its defaults: the text is lower-cased, the tokens are the
  matches of \<^verbatim>\<open>(?u)\b\w\w+\b\<close>, that is the maximal runs of word characters that are at
  least two characters long; the weight of a term in a document is its count times
  \<open>ln ((1 + n) / (1 + df)) + 1\<close> (smoothed inverse document frequency over the \<open>n\<close>
  documents of the corpus); every row is divided by its Euclidean norm unless that is
  zero. The vocabulary is listed here without repetition, in the order of the text
  (scikit-learn sorts it; the order of the coordinates changes no distance). With no token in any document
  \<^verbatim>\<open>fit_transform\<close> raises \<^verbatim>\<open>ValueError\<close> (empty vocabulary): the result \<open>None\<close>.
\<close>

definition word_chars :: "char list" where
  "word_chars = ''abcdefghijklmnopqrstuvwxyzABCDEFGHIJKLMNOPQRSTUVWXYZ0123456789_''"

fun word_runs :: "string \<Rightarrow> string \<Rightarrow> string list" where
  "word_runs run [] = (if run = [] then [] else [run])"
| "word_runs run (c # cs) =
     (if c \<in> set word_chars then word_runs (run @ [c]) cs
      else (if run = [] then [] else [run]) @ word_runs [] cs)"

definition tokenize :: "string \<Rightarrow> string list" where
  "tokenize doc = filter (\<lambda>w. 2 \<le> length w) (word_runs [] (lower doc))"

definition vocabulary :: "string list list \<Rightarrow> string list" where
  "vocabulary docs = remdups (concat docs)"

definition doc_freq :: "string list list \<Rightarrow> string \<Rightarrow> nat" where
  "doc_freq docs t = length (filter (\<lambda>d. t \<in> set d) docs)"

definition idf :: "nat \<Rightarrow> nat \<Rightarrow> real" where
  "idf n dfreq = ln ((1 + real n) / (1 + real dfreq)) + 1"

definition l2_norm :: "real list \<Rightarrow> real" where
  "l2_norm v = sqrt (\<Sum>x\<leftarrow>v. x\<^sup>2)"

definition l2_normalize :: "real list \<Rightarrow> real list" where
  "l2_normalize v = (if l2_norm v = 0 then v else map (\<lambda>x. x / l2_norm v) v)"

definition tfidf_row :: "string list list \<Rightarrow> string list \<Rightarrow> string list \<Rightarrow> real list" where
  "tfidf_row docs vocab d =
     l2_normalize (map (\<lambda>t. real (count_list d t) * idf (length docs) (doc_freq docs t)) vocab)"

definition fit_transform :: "string list \<Rightarrow> real list list option" where
  "fit_transform corpus =
     (let docs = map tokenize corpus; vocab = vocabulary docs in
      if vocab = [] then None else Some (map (tfidf_row docs vocab) docs))"

subsection \<open>\<^verbatim>\<open>faiss.IndexFlatL2\<close>\<close>

text \<open>
  The flat index compares the query with every stored vector by squared Euclidean
  distance and returns the labels of the \<open>k\<close> nearest in ascending order of distance,
  equal distances in ascending order of label; with fewer than \<open>k\<close> stored vectors the
  missing labels are \<open>-1\<close>.
\<close>

definition l2sqr :: "real list \<Rightarrow> real list \<Rightarrow> real" where
  "l2sqr x y = (\<Sum>(a, b)\<leftarrow>zip x y. (a - b)\<^sup>2)"

definition distances :: "real list list \<Rightarrow> real list \<Rightarrow> real list" where
  "distances embeddings user_embedding = map (l2sqr user_embedding) embeddings"

definition nearest :: "real list \<Rightarrow> nat list" where
  "nearest ds = sort_key (\<lambda>i. ds ! i) [0..<length ds]"

definition index_search :: "real list list \<Rightarrow> real list \<Rightarrow> nat \<Rightarrow> int list" where
  "index_search embeddings user_embedding k =
     map int (take k (nearest (distances embeddings user_embedding)))
       @ replicate (k - length embeddings) (- 1)"

subsection \<open>Selecting the rows\<close>

text \<open>
  \<^verbatim>\<open>df.iloc[indices]\<close>: a negative position counts from the end, and a position out of
  range raises \<^verbatim>\<open>IndexError\<close>.
\<close>

definition iloc :: "'a list \<Rightarrow> int \<Rightarrow> error + 'a" where
  "iloc rows i =
     (let n = int (length rows); j = (if i < 0 then n + i else i) in
      if 0 \<le> j \<and> j < n then Inr (rows ! nat j) else Inl IndexError)"

fun iloc_rows :: "'a list \<Rightarrow> int list \<Rightarrow> error + 'a list" where
  "iloc_rows rows [] = Inr []"
| "iloc_rows rows (i # idx) =
     (case iloc rows i of
        Inl e \<Rightarrow> Inl e
      | Inr r \<Rightarrow> (case iloc_rows rows idx of Inl e \<Rightarrow> Inl e | Inr rs \<Rightarrow> Inr (r # rs)))"

text \<open>
  Lines 82--108. The projection onto the seven returned columns drops the derived
  column: it is the truncation of the extended record.
\<close>

definition rank_and_project :: "listing list \<Rightarrow> string list \<Rightarrow> error + result" where
  "rank_and_project df_filtered user_amenities =
     (let cands = map add_amenities_str df_filtered;
          user_amenities_str = join_space user_amenities in
      case fit_transform (map amenities_str cands @ [user_amenities_str]) of
        None \<Rightarrow> Inl ValueError
      | Some tfidf_matrix \<Rightarrow>
          (let embeddings = butlast tfidf_matrix;
               user_embedding = last tfidf_matrix;
               indices = index_search embeddings user_embedding 10 in
           case iloc_rows cands indices of
             Inl e \<Rightarrow> Inl e
           | Inr picked \<Rightarrow>
               Inr (Table (map listing.truncate (take 5 (drop_duplicates picked))))))"

section \<open>\<^verbatim>\<open>find_similar_properties\<close> (lines 61--108)\<close>

definition find_similar_properties ::
  "regex_engine \<Rightarrow> listing list \<Rightarrow> int option \<Rightarrow> real option \<Rightarrow> string option \<Rightarrow> string list
     \<Rightarrow> error + result" where
  "find_similar_properties re_compile df user_size user_price user_location user_amenities =
     (case structured_filter re_compile df user_size user_price user_location of
        Inl e \<Rightarrow> Inl e
      | Inr (Inl m) \<Rightarrow> Inr (Message m)
      | Inr (Inr df_filtered) \<Rightarrow> rank_and_project df_filtered user_amenities)"

section \<open>The extractor and the main program (lines 111--160)\<close>

text \<open>
  \<^verbatim>\<open>extract_keywords_from_text\<close> asks an external language model and evaluates the first
  brace-delimited part of its answer with \<^verbatim>\<open>eval\<close>. Both are parameters here: the answer
  of the model to a user text, and the value (or exception) of \<^verbatim>\<open>eval\<close> on a string.
  \<^verbatim>\<open>re.search(r"\{.*\}", text, re.DOTALL)\<close> matches from the first opening brace to the
  last closing brace after it. Without a match the function returns the dictionary
  whose size, price and location are \<^verbatim>\<open>None\<close> and whose amenities are empty.
\<close>

record extracted =
  q_size :: "int option"
  q_price :: "real option"
  q_location :: "string option"
  q_amenities :: "string list"

definition brace_match :: "string \<Rightarrow> string option" where
  "brace_match s =
     (let t = dropWhile (\<lambda>c. c \<noteq> CHR ''{'') s in
      if CHR ''}'' \<in> set t then Some (rev (dropWhile (\<lambda>c. c \<noteq> CHR ''}'') (rev t)))
      else None)"

definition empty_extraction :: extracted where
  "empty_extraction = \<lparr>q_size = None, q_price = None, q_location = None, q_amenities = []\<rparr>"

definition extract_keywords_from_text ::
  "(string \<Rightarrow> string) \<Rightarrow> (string \<Rightarrow> error + extracted) \<Rightarrow> string \<Rightarrow> error + extracted" where
  "extract_keywords_from_text generate_content eval_py user_text =
     (case brace_match (generate_content user_text) of
        Some m \<Rightarrow> eval_py m
      | None \<Rightarrow> Inr empty_extraction)"

text \<open>
  The \<^verbatim>\<open>__main__\<close> block: the extracted fields go to \<^verbatim>\<open>find_similar_properties\<close> as they
  are.
\<close>

definition main_program ::
  "regex_engine \<Rightarrow> (string \<Rightarrow> string) \<Rightarrow> (string \<Rightarrow> error + extracted) \<Rightarrow> listing list \<Rightarrow> string
     \<Rightarrow> error + result" where
  "main_program re_compile generate_content eval_py df user_query =
     (case extract_keywords_from_text generate_content eval_py user_query of
        Inl e \<Rightarrow> Inl e
      | Inr r \<Rightarrow>
          find_similar_properties re_compile df (q_size r) (q_price r) (q_location r)
            (q_amenities r))"

section \<open>Notions used in the statements\<close>

text \<open>
  The corpus handed to the vectorizer on line 87: the joined amenity strings of the
  filtered rows, then the joined amenities of the query as the last document.
\<close>

definition amenity_corpus :: "listing list \<Rightarrow> string list \<Rightarrow> string list" where
  "amenity_corpus rows user_amenities =
     map (\<lambda>r. join_space (amenities r)) rows @ [join_space user_amenities]"


section \<open>Example data\<close>

text \<open>
  The listings of the scenario of the specification (two two-bedroom flats in Mumbai),
  and further rows used to evaluate the functions on concrete tables.
\<close>

definition no_regex :: regex_engine where
  "no_regex = (\<lambda>pat. None)"

definition flat :: "string \<Rightarrow> int \<Rightarrow> real \<Rightarrow> string \<Rightarrow> string list \<Rightarrow> listing" where
  "flat l s p loc am =
     \<lparr>link = l, size_n = s, price = p, location = Some loc, amenities = am,
      description = [], building_name = []\<rparr>"

definition flat1 :: listing where
  "flat1 = flat ''id1'' 2 100000 ''mumbai'' [''gym'']"

definition flat2 :: listing where
  "flat2 = flat ''id2'' 2 118000 ''mumbai'' [''pool'']"

definition flat3 :: listing where
  "flat3 = flat ''id3'' 2 126000 ''navi mumbai'' []"

definition flat4 :: listing where
  "flat4 = flat ''id4'' 3 90000 ''mumbai'' [''gym'']"

definition flat5 :: listing where
  "flat5 = flat ''id5'' 2 126001 ''mumbai'' [''gym'']"

definition flat_mg :: listing where
  "flat_mg = flat ''id6'' 2 90000 ''m g road'' [''lift'']"

definition flat_far :: listing where
  "flat_far = flat ''id7'' 2 90000 ''pune'' [''gym'']"

definition flat_bare :: listing where
  "flat_bare = flat ''id8'' 2 110000 ''mumbai'' []"


section \<open>Properties of the structured filter\<close>


lemma structured_filter_survivors:
  assumes "structured_filter re_compile df user_size user_price user_location = Inr (Inr rows)"
  shows "\<exists>s p l contains.
           user_size = Some s \<and> user_price = Some p \<and> user_location = Some l \<and>
           str_contains re_compile (lower l) = Some contains \<and>
           rows = price_stage (location_stage contains (size_stage df user_size) (lower l)) p \<and>
           rows \<noteq> []"
proof -
  from assms obtain l where l: "user_location = Some l"
    by (cases user_location) (auto simp: structured_filter_def Let_def split: if_splits)
  from assms l obtain contains where c: "str_contains re_compile (lower l) = Some contains"
    by (cases "str_contains re_compile (lower l)")
       (auto simp: structured_filter_def Let_def split: if_splits)
  from assms l c obtain p where p: "user_price = Some p"
    by (cases user_price) (auto simp: structured_filter_def Let_def split: if_splits)
  from assms l c p
  have r: "rows = price_stage (location_stage contains (size_stage df user_size) (lower l)) p"
    and ne: "rows \<noteq> []"
    by (auto simp: structured_filter_def Let_def split: if_splits)
  from ne r have "size_stage df user_size \<noteq> []"
    by (auto simp: price_stage_def location_stage_def exact_match_def partial_match_def)
  then obtain s where "user_size = Some s"
    by (cases user_size) (auto simp: size_stage_def)
  with l c p r ne show ?thesis by blast
qed



section \<open>Duplicates, patterns and the location stage\<close>

lemma drop_duplicates_filter:
  "drop_duplicates (filter (\<lambda>x. link x \<noteq> a) rs) = filter (\<lambda>x. link x \<noteq> a) (drop_duplicates rs)"
proof (induction rs rule: drop_duplicates.induct)
  case 1
  then show ?case by simp
next
  case (2 r rs)
  show ?case
  proof (cases "link r = a")
    case True
    have "filter (\<lambda>x. link x \<noteq> a) rs = filter (\<lambda>x. link x \<noteq> a) (filter (\<lambda>x. link x \<noteq> link r) rs)"
      using True by (simp add: conj_commute)
    then show ?thesis using True 2 by simp
  next
    case False
    have "filter (\<lambda>x. link x \<noteq> link r) (filter (\<lambda>x. link x \<noteq> a) rs)
        = filter (\<lambda>x. link x \<noteq> a) (filter (\<lambda>x. link x \<noteq> link r) rs)"
      by (simp add: conj_commute)
    then show ?thesis using False 2 by simp
  qed
qed

lemma link_set_drop_duplicates: "link ` set (drop_duplicates rs) = link ` set rs"
  by (induction rs rule: drop_duplicates.induct) auto

lemma distinct_link_drop_duplicates: "distinct (map link (drop_duplicates rs))"
proof (induction rs rule: drop_duplicates.induct)
  case 1
  then show ?case by simp
next
  case (2 r rs)
  have "link r \<notin> link ` set (filter (\<lambda>x. link x \<noteq> link r) rs)" by auto
  then have "link r \<notin> link ` set (drop_duplicates (filter (\<lambda>x. link x \<noteq> link r) rs))"
    unfolding link_set_drop_duplicates .
  with 2 show ?case by simp
qed

lemma drop_duplicates_id: "distinct (map link rs) \<Longrightarrow> drop_duplicates rs = rs"
proof (induction rs rule: drop_duplicates.induct)
  case 1
  then show ?case by simp
next
  case (2 r rs)
  from 2(2) have "\<forall>x \<in> set rs. link x \<noteq> link r"
    by (auto simp: image_iff)
  then have "filter (\<lambda>x. link x \<noteq> link r) rs = rs"
    by simp
  with 2 show ?case by simp
qed

lemma drop_duplicates_append:
  "drop_duplicates (xs @ ys)
     = drop_duplicates xs @ drop_duplicates (filter (\<lambda>y. link y \<notin> link ` set xs) ys)"
proof (induction xs arbitrary: ys rule: drop_duplicates.induct)
  case 1
  then show ?case by simp
next
  case (2 r rs)
  have "drop_duplicates ((r # rs) @ ys)
      = r # drop_duplicates (filter (\<lambda>x. link x \<noteq> link r) rs @ filter (\<lambda>x. link x \<noteq> link r) ys)"
    by simp
  also have "\<dots> = r # drop_duplicates (filter (\<lambda>x. link x \<noteq> link r) rs)
       @ drop_duplicates (filter (\<lambda>y. link y \<notin> link ` set (filter (\<lambda>x. link x \<noteq> link r) rs))
            (filter (\<lambda>x. link x \<noteq> link r) ys))"
    using 2 by simp
  also have "filter (\<lambda>y. link y \<notin> link ` set (filter (\<lambda>x. link x \<noteq> link r) rs))
            (filter (\<lambda>x. link x \<noteq> link r) ys) = filter (\<lambda>y. link y \<notin> link ` set (r # rs)) ys"
    by (auto intro!: filter_cong)
  finally show ?case by simp
qed

lemma drop_duplicates_eq_Nil [simp]: "drop_duplicates rs = [] \<longleftrightarrow> rs = []"
  by (cases rs) auto



lemma is_substring_iff: "is_substring pat s \<longleftrightarrow> (\<exists>pre post. s = pre @ pat @ post)"
proof (induction s)
  case Nil
  then show ?case by auto
next
  case (Cons c cs)
  show ?case
  proof
    assume "is_substring pat (c # cs)"
    then consider "take (length pat) (c # cs) = pat" | "is_substring pat cs" by auto
    then show "\<exists>pre post. c # cs = pre @ pat @ post"
    proof cases
      case 1
      then have "c # cs = [] @ pat @ drop (length pat) (c # cs)"
        by (metis append_Nil append_take_drop_id)
      then show ?thesis by blast
    next
      case 2
      with Cons obtain pre post where "cs = pre @ pat @ post" by blast
      then have "c # cs = (c # pre) @ pat @ post" by simp
      then show ?thesis by blast
    qed
  next
    assume "\<exists>pre post. c # cs = pre @ pat @ post"
    then obtain pre post where e: "c # cs = pre @ pat @ post" by blast
    show "is_substring pat (c # cs)"
    proof (cases pre)
      case Nil
      with e have "take (length pat) (c # cs) = pat" by simp
      then show ?thesis by simp
    next
      case (Cons a pre')
      with e have "cs = pre' @ pat @ post" by simp
      with Cons.IH show ?thesis by auto
    qed
  qed
qed


lemma str_contains_simple:
  "simple_pattern pat \<Longrightarrow>
     str_contains e pat = Some (\<lambda>cell. case cell of None \<Rightarrow> False | Some s \<Rightarrow> re_search pat s)"
  by (simp add: str_contains_def)

lemma same_link_same_row:
  "distinct (map link rows) \<Longrightarrow> a \<in> set rows \<Longrightarrow> b \<in> set rows \<Longrightarrow> link a = link b \<Longrightarrow> a = b"
  by (meson distinct_map inj_on_def)

lemma distinct_map_distinct: "distinct (map f xs) \<Longrightarrow> distinct xs"
  by (simp add: distinct_map)

lemma location_stage_links:
  "link ` set (location_stage contains rows loc)
     = link ` set (exact_match rows loc) \<union> link ` set (partial_match contains rows)"
  by (simp add: location_stage_def link_set_drop_duplicates image_Un)


lemma location_stage_distinct_rows:
  assumes "distinct (map link rows)"
  shows "set (location_stage contains rows loc)
           = set (exact_match rows loc) \<union> set (partial_match contains rows)"
proof -
  have "distinct (map link (exact_match rows loc))"
    using assms by (simp add: exact_match_def distinct_map_filter)
  then have e: "drop_duplicates (exact_match rows loc) = exact_match rows loc"
    by (rule drop_duplicates_id)
  have "distinct (map link (filter (\<lambda>r. link r \<notin> link ` set (exact_match rows loc))
           (partial_match contains rows)))"
    using assms by (simp add: partial_match_def distinct_map_filter)
  then have p: "drop_duplicates (filter (\<lambda>r. link r \<notin> link ` set (exact_match rows loc))
           (partial_match contains rows))
        = filter (\<lambda>r. link r \<notin> link ` set (exact_match rows loc)) (partial_match contains rows)"
    by (rule drop_duplicates_id)
  have "set (partial_match contains rows) \<subseteq> set (exact_match rows loc) \<union>
          set (filter (\<lambda>r. link r \<notin> link ` set (exact_match rows loc)) (partial_match contains rows))"
  proof
    fix r assume r: "r \<in> set (partial_match contains rows)"
    show "r \<in> set (exact_match rows loc) \<union>
          set (filter (\<lambda>r. link r \<notin> link ` set (exact_match rows loc)) (partial_match contains rows))"
    proof (cases "link r \<in> link ` set (exact_match rows loc)")
      case True
      then obtain x where x: "x \<in> set (exact_match rows loc)" "link r = link x" by auto
      from x(1) have "x \<in> set rows" by (simp add: exact_match_def)
      moreover from r have "r \<in> set rows" by (simp add: partial_match_def)
      ultimately have "r = x" using assms x(2) by (metis same_link_same_row)
      with x show ?thesis by simp
    next
      case False
      with r show ?thesis by simp
    qed
  qed
  then show ?thesis
    unfolding location_stage_def drop_duplicates_append e p by auto
qed


lemmas ev_defs = structured_filter_def size_stage_def location_stage_def exact_match_def
        partial_match_def price_stage_def upper_price_limit_def str_contains_def
        simple_pattern_def literal_pattern_def regex_special_def lower_def lower_char_def
        flat1_def flat2_def flat3_def flat4_def flat5_def flat_mg_def flat_def no_regex_def



section \<open>The empty results\<close>

lemma rank_and_project_no_message: "rank_and_project rows am \<noteq> Inr (Message m)"
  by (simp add: rank_and_project_def Let_def split: option.splits sum.splits)

lemma msgs_distinct:
  "msg_size \<noteq> msg_location" "msg_size \<noteq> msg_price" "msg_location \<noteq> msg_price"
  by (simp_all add: msg_size_def msg_location_def msg_price_def)

lemma find_size_empty:
  "size_stage df us = [] \<Longrightarrow>
     find_similar_properties e df us up ul am = Inr (Message msg_size)"
  by (simp add: find_similar_properties_def structured_filter_def)






lemmas ev_defs2 = ev_defs flat_far_def msg_size_def msg_location_def msg_price_def find_similar_properties_def


section \<open>Letter case and whitespace of the query location\<close>

text \<open>
  C9 (as amended). Only the query location is lower-cased, and no whitespace is
  normalised: a query location whose lower-cased form equals a stored lower-case
  location (it differs from it in letter case only) matches at the location stage,
  whenever it compiles as a pattern: the listing is an exact match, its identifier is in
  the result of the stage (the listing itself, when identifiers are unique), and the
  function returns neither the size nor the location message.
\<close>

theorem C9_lowercased_query_matches:
  assumes "str_contains re_compile (lower l) = Some contains"
    and "r \<in> set df" and "location r = Some stored"
    and "lower stored = stored" and "lower l = lower stored"
  shows "r \<in> set (exact_match (size_stage df (Some (size_n r))) (lower l)) \<and>
         link r \<in> link ` set (location_stage contains (size_stage df (Some (size_n r))) (lower l)) \<and>
         (distinct (map link df) \<longrightarrow>
            r \<in> set (location_stage contains (size_stage df (Some (size_n r))) (lower l))) \<and>
         (\<forall>up am. find_similar_properties re_compile df (Some (size_n r)) up (Some l) am
            \<noteq> Inr (Message msg_size) \<and>
          find_similar_properties re_compile df (Some (size_n r)) up (Some l) am
            \<noteq> Inr (Message msg_location))"
proof -
  let ?S = "size_stage df (Some (size_n r))"
  let ?L = "location_stage contains ?S (lower l)"
  from assms have rS: "r \<in> set ?S" by (simp add: size_stage_def)
  with assms have ex: "r \<in> set (exact_match ?S (lower l))"
    by (simp add: exact_match_def)
  then have lk: "link r \<in> link ` set ?L"
    using location_stage_links [of contains ?S "lower l"] by blast
  have dist: "r \<in> set ?L" if "distinct (map link df)"
  proof -
    from that have "distinct (map link ?S)" by (simp add: size_stage_def distinct_map_filter)
    from location_stage_distinct_rows [OF this, of contains "lower l"] ex show ?thesis by blast
  qed
  from rS have Sne: "?S \<noteq> []" by auto
  from lk have Lne: "?L \<noteq> []" by auto
  have "find_similar_properties re_compile df (Some (size_n r)) up (Some l) am \<noteq> Inr (Message msg_size) \<and>
        find_similar_properties re_compile df (Some (size_n r)) up (Some l) am \<noteq> Inr (Message msg_location)"
    for up am
    using assms(1) Sne Lne msgs_distinct rank_and_project_no_message
    by (cases up) (auto simp: find_similar_properties_def structured_filter_def Let_def)
  with ex lk dist show ?thesis by blast
qed

text \<open>
  C9 as the specification states it fails: a query location that differs from the stored
  one in whitespace only does not match. A leading blank, or a doubled blank inside,
  gives the location message.
\<close>

theorem C9_counterexample:
  "location flat1 = Some ''mumbai'' \<and>
   find_similar_properties no_regex [flat1] (Some 2) (Some 120000) (Some '' mumbai'') []
     = Inr (Message msg_location) \<and>
   location flat3 = Some ''navi mumbai'' \<and>
   find_similar_properties no_regex [flat3] (Some 2) (Some 120000) (Some ''navi  mumbai'') []
     = Inr (Message msg_location)"
  by (simp add: ev_defs2)

theorem C9_lowercased_query_matches_witness:
  "str_contains no_regex (lower ''MumBai'')
     = Some (\<lambda>cell. case cell of None \<Rightarrow> False | Some s \<Rightarrow> re_search ''mumbai'' s) \<and>
   flat1 \<in> set [flat_far, flat1] \<and> location flat1 = Some ''mumbai'' \<and>
   lower ''mumbai'' = ''mumbai'' \<and> lower ''MumBai'' = lower ''mumbai'' \<and>
   flat1 \<in> set (location_stage (\<lambda>cell. case cell of None \<Rightarrow> False | Some s \<Rightarrow> re_search ''mumbai'' s)
      (size_stage [flat_far, flat1] (Some (size_n flat1))) (lower ''MumBai'')) \<and>
   find_similar_properties no_regex [flat_far, flat1] (Some (size_n flat1)) None (Some ''MumBai'') []
     \<noteq> Inr (Message msg_location)"
proof -
  let ?c = "\<lambda>cell. case cell of None \<Rightarrow> False | Some s \<Rightarrow> re_search ''mumbai'' s"
  have c: "str_contains no_regex (lower ''MumBai'') = Some ?c"
    by (simp add: ev_defs)
  have m: "flat1 \<in> set [flat_far, flat1]" by simp
  have s: "location flat1 = Some ''mumbai''" by (simp add: ev_defs)
  have l1: "lower ''mumbai'' = ''mumbai''" by (simp add: ev_defs)
  have l2: "lower ''MumBai'' = lower ''mumbai''" by (simp add: ev_defs)
  have d: "distinct (map link [flat_far, flat1])" by (simp add: ev_defs2)
  from C9_lowercased_query_matches [OF c m s l1 l2] d c m s l1 l2 show ?thesis
    by blast
qed

section \<open>The query without fields\<close>

text \<open>
  C6 (as amended). A query whose size, price and location are all missing is forwarded to
  \<^verbatim>\<open>find_similar_properties\<close> like any other: the size comparison of the filter keeps no
  listing, and the result is the string "No properties found with the given size.". This
  is what the main program returns when the answer of the model holds no brace-delimited
  part.
\<close>

theorem C6_all_empty_query_is_forwarded:
  "find_similar_properties re_compile df None None None am = Inr (Message msg_size) \<and>
   (brace_match (generate_content user_query) = None \<longrightarrow>
      extract_keywords_from_text generate_content eval_py user_query = Inr empty_extraction \<and>
      main_program re_compile generate_content eval_py df user_query
        = find_similar_properties re_compile df None None None [] \<and>
      main_program re_compile generate_content eval_py df user_query = Inr (Message msg_size))"
proof -
  have "size_stage df None = []" by (simp add: size_stage_def)
  then have f: "find_similar_properties re_compile df None None None a = Inr (Message msg_size)" for a
    by (rule find_size_empty)
  then show ?thesis
    by (simp add: main_program_def extract_keywords_from_text_def empty_extraction_def)
qed

text \<open>
  C6 as the specification states it fails: the reason "could not parse query" is never
  returned. On an answer without braces the main program returns the size message of the
  filter.
\<close>

theorem C6_counterexample:
  "extract_keywords_from_text (\<lambda>t. ''Sorry, I cannot help.'') (\<lambda>t. Inl ValueError) ''hello''
     = Inr \<lparr>q_size = None, q_price = None, q_location = None, q_amenities = []\<rparr> \<and>
   main_program no_regex (\<lambda>t. ''Sorry, I cannot help.'') (\<lambda>t. Inl ValueError) [flat1, flat2] ''hello''
     = Inr (Message ''No properties found with the given size.'') \<and>
   main_program no_regex (\<lambda>t. ''Sorry, I cannot help.'') (\<lambda>t. Inl ValueError) [flat1, flat2] ''hello''
     \<noteq> Inr (Message ''could not parse query'')"
  by (simp add: main_program_def extract_keywords_from_text_def empty_extraction_def brace_match_def
      ev_defs2)

theorem C6_all_empty_query_is_forwarded_witness:
  "brace_match ''Sorry, I cannot help.'' = None \<and>
   main_program no_regex (\<lambda>t. ''Sorry, I cannot help.'') (\<lambda>t. Inl ValueError) [flat1, flat2] ''hello''
     = Inr (Message msg_size)"
proof -
  have b: "brace_match ((\<lambda>t. ''Sorry, I cannot help.'') ''hello'') = None"
    by (simp add: brace_match_def)
  from C6_all_empty_query_is_forwarded [of no_regex "[flat1, flat2]" "[]"
      "\<lambda>t. ''Sorry, I cannot help.''" "''hello''" "\<lambda>t. Inl ValueError"] b
  show ?thesis by simp
qed

section \<open>The rows picked by the ranking stage\<close>

lemma truncate_add_amenities_str [simp]: "listing.truncate (add_amenities_str r) = r"
  by (simp add: add_amenities_str_def listing.defs candidate.defs)

lemma link_add_amenities_str [simp]: "link (add_amenities_str r) = link r"
  by (simp add: add_amenities_str_def listing.defs)

lemma amenities_str_add [simp]: "amenities_str (add_amenities_str r) = join_space (amenities r)"
  by (simp add: add_amenities_str_def listing.defs candidate.defs)

lemma fit_transform_length: "fit_transform corpus = Some M \<Longrightarrow> length M = length corpus"
  by (auto simp: fit_transform_def Let_def split: if_splits)

lemma set_nearest [simp]: "set (nearest ds) = {0..<length ds}"
  by (simp add: nearest_def)

lemma distinct_nearest [simp]: "distinct (nearest ds)"
  by (simp add: nearest_def)

lemma length_nearest [simp]: "length (nearest ds) = length ds"
  by (simp add: nearest_def)

lemma iloc_nat: "i < length rows \<Longrightarrow> iloc rows (int i) = Inr (rows ! i)"
  by (simp add: iloc_def)

lemma iloc_minus_one: "rows \<noteq> [] \<Longrightarrow> iloc rows (- 1) = Inr (last rows)"
  by (cases rows rule: rev_cases) (simp_all add: iloc_def Let_def nat_diff_distrib)

lemma iloc_rows_padding:
  "rows \<noteq> [] \<Longrightarrow> iloc_rows rows (replicate m (- 1)) = Inr (replicate m (last rows))"
  by (induction m) (simp_all add: iloc_minus_one)

lemma iloc_rows_positions:
  assumes "rows \<noteq> []" "\<forall>i \<in> set ps. i < length rows"
  shows "iloc_rows rows (map int ps @ replicate m (- 1))
           = Inr (map (nth rows) ps @ replicate m (last rows))"
  using assms by (induction ps) (simp_all add: iloc_rows_padding iloc_nat)

lemma drop_duplicates_padding:
  assumes "link x \<in> link ` set xs"
  shows "drop_duplicates (xs @ replicate m x) = drop_duplicates xs"
proof -
  have "filter (\<lambda>y. link y \<notin> link ` set xs) (replicate m x) = []"
    using assms by simp
  then show ?thesis by (simp add: drop_duplicates_append)
qed

lemma distinct_links_nth:
  assumes "distinct (map link rows)" "distinct ps" "\<forall>i \<in> set ps. i < length rows"
  shows "distinct (map link (map (nth rows) ps))"
proof -
  have "x = y" if "x \<in> set ps" "y \<in> set ps" "link (rows ! x) = link (rows ! y)" for x y
  proof -
    from that assms(3) have x: "x < length (map link rows)" and y: "y < length (map link rows)"
      by simp_all
    from that(3) x y have "map link rows ! x = map link rows ! y" by simp
    with nth_eq_iff_index_eq [OF assms(1) x y] show ?thesis by simp
  qed
  then have "inj_on (\<lambda>i. link (rows ! i)) (set ps)"
    by (simp add: inj_on_def)
  with assms(2) show ?thesis by (simp add: distinct_map comp_def)
qed

lemma picked_rows:
  assumes ne: "rows \<noteq> []" and d: "distinct (map link rows)" and len: "length ds = length rows"
  shows "drop_duplicates (map (nth rows) (take k (nearest ds)) @ replicate (k - length rows) (last rows))
           = map (nth rows) (take k (nearest ds))"
proof -
  let ?ps = "take k (nearest ds)"
  have "set ?ps \<subseteq> set (nearest ds)" by (rule set_take_subset)
  then have sub: "set ?ps \<subseteq> {0..<length rows}" by (simp add: len)
  have lt: "\<forall>i \<in> set ?ps. i < length rows"
  proof
    fix i assume "i \<in> set ?ps"
    with sub have "i \<in> {0..<length rows}" by (rule subsetD)
    then show "i < length rows" by simp
  qed
  have dps: "distinct ?ps" by (rule distinct_take) (rule distinct_nearest)
  have dd: "drop_duplicates (map (nth rows) ?ps) = map (nth rows) ?ps"
    by (rule drop_duplicates_id) (rule distinct_links_nth [OF d dps lt])
  show ?thesis
  proof (cases "k \<le> length rows")
    case True
    then have "k - length rows = 0" by simp
    then show ?thesis by (simp only: replicate_0 append_Nil2 dd)
  next
    case False
    then have "length (nearest ds) \<le> k" by (simp add: len)
    then have all: "?ps = nearest ds" by (rule take_all)
    from ne have "length rows - 1 < length rows" by simp
    then have "length rows - 1 \<in> set (nearest ds)" by (simp add: len)
    then have "rows ! (length rows - 1) \<in> nth rows ` set (nearest ds)" by (rule imageI)
    moreover have "last rows = rows ! (length rows - 1)"
      using ne by (rule last_conv_nth)
    ultimately have "last rows \<in> set (map (nth rows) ?ps)"
      by (simp only: all set_map)
    then have "link (last rows) \<in> link ` set (map (nth rows) ?ps)" by (rule imageI)
    from drop_duplicates_padding [OF this] dd show ?thesis by (simp only:)
  qed
qed

lemma rank_and_project_table:
  assumes ne: "rows \<noteq> []" and d: "distinct (map link rows)"
    and ft: "fit_transform (map (\<lambda>r. join_space (amenities r)) rows @ [join_space am]) = Some M"
  shows "rank_and_project rows am
           = Inr (Table (map (nth rows) (take 5 (nearest (distances (butlast M) (last M))))))"
proof -
  let ?cands = "map add_amenities_str rows"
  let ?ds = "distances (butlast M) (last M)"
  have corpus: "map amenities_str ?cands = map (\<lambda>r. join_space (amenities r)) rows"
    by simp
  from fit_transform_length [OF ft] have lenM: "length M = length rows + 1" by simp
  then have len: "length ?ds = length rows" by (simp add: distances_def)
  have idx: "index_search (butlast M) (last M) 10
               = map int (take 10 (nearest ?ds)) @ replicate (10 - length ?cands) (- 1)"
    using lenM by (simp add: index_search_def)
  have lt: "\<forall>i \<in> set (take 10 (nearest ?ds)). i < length ?cands"
    using len by (auto dest: in_set_takeD)
  have cne: "?cands \<noteq> []" using ne by simp
  have il: "iloc_rows ?cands (index_search (butlast M) (last M) 10)
              = Inr (map (nth ?cands) (take 10 (nearest ?ds))
                     @ replicate (10 - length ?cands) (last ?cands))"
    unfolding idx by (rule iloc_rows_positions [OF cne lt])
  have dc: "distinct (map link ?cands)" using d by (simp add: comp_def)
  have lenc: "length ?ds = length ?cands" using len by simp
  have dd: "drop_duplicates (map (nth ?cands) (take 10 (nearest ?ds))
                     @ replicate (10 - length ?cands) (last ?cands))
              = map (nth ?cands) (take 10 (nearest ?ds))"
    by (rule picked_rows [OF cne dc lenc])
  have tr: "map listing.truncate (take 5 (map (nth ?cands) (take 10 (nearest ?ds))))
              = map (nth rows) (take 5 (nearest ?ds))"
  proof -
    have "take 5 (map (nth ?cands) (take 10 (nearest ?ds))) = map (nth ?cands) (take 5 (nearest ?ds))"
      by (simp add: take_map)
    moreover have "\<forall>i \<in> set (take 5 (nearest ?ds)). i < length rows"
      using len by (auto dest: in_set_takeD)
    ultimately show ?thesis by (simp add: comp_def)
  qed
  have "rank_and_project rows am
          = (case iloc_rows ?cands (index_search (butlast M) (last M) 10) of
               Inl e \<Rightarrow> Inl e
             | Inr picked \<Rightarrow> Inr (Table (map listing.truncate (take 5 (drop_duplicates picked)))))"
    unfolding rank_and_project_def Let_def corpus ft option.case ..
  also have "\<dots> = Inr (Table (map listing.truncate
       (take 5 (map (nth ?cands) (take 10 (nearest ?ds))))))"
    unfolding il sum.case dd ..
  finally show ?thesis unfolding tr .
qed

section \<open>The ranking\<close>

lemma filter_rows_distinct:
  assumes "structured_filter e df us up ul = Inr (Inr rows)"
  shows "rows \<noteq> [] \<and> distinct (map link rows)"
proof -
  from structured_filter_survivors [OF assms] obtain p l contains where
    r: "rows = price_stage (location_stage contains (size_stage df us) (lower l)) p" and ne: "rows \<noteq> []"
    by blast
  have "distinct (map link (location_stage contains (size_stage df us) (lower l)))"
    by (simp add: location_stage_def distinct_link_drop_duplicates)
  then have "distinct (map link rows)"
    unfolding r price_stage_def by (rule distinct_map_filter)
  with ne show ?thesis by simp
qed

lemma find_is_rank:
  "structured_filter e df us up ul = Inr (Inr rows) \<Longrightarrow>
     find_similar_properties e df us up ul am = rank_and_project rows am"
  by (simp add: find_similar_properties_def)

lemma rank_and_project_corpus:
  "rank_and_project rows am =
     (case fit_transform (amenity_corpus rows am) of
        None \<Rightarrow> Inl ValueError
      | Some M \<Rightarrow>
          (case iloc_rows (map add_amenities_str rows) (index_search (butlast M) (last M) 10) of
             Inl e \<Rightarrow> Inl e
           | Inr picked \<Rightarrow> Inr (Table (map listing.truncate (take 5 (drop_duplicates picked))))))"
  by (simp add: rank_and_project_def amenity_corpus_def Let_def comp_def split: option.splits)

lemma rank_and_project_ValueError:
  "fit_transform (amenity_corpus rows am) = None \<Longrightarrow> rank_and_project rows am = Inl ValueError"
  by (simp add: rank_and_project_corpus)

lemma rank_and_project_Some:
  assumes "rows \<noteq> []" "distinct (map link rows)" "fit_transform (amenity_corpus rows am) = Some M"
  shows "rank_and_project rows am
           = Inr (Table (map (nth rows) (take 5 (nearest (distances (butlast M) (last M))))))"
  using assms(3) unfolding amenity_corpus_def by (rule rank_and_project_table [OF assms(1,2)])

lemma fit_transform_None_iff:
  "fit_transform corpus = None \<longleftrightarrow> (\<forall>d \<in> set corpus. tokenize d = [])"
  by (auto simp: fit_transform_def Let_def vocabulary_def)

lemma length_distances:
  "fit_transform (amenity_corpus rows am) = Some M \<Longrightarrow>
     length (distances (butlast M) (last M)) = length rows"
  by (drule fit_transform_length) (simp add: distances_def amenity_corpus_def)

lemma length_index_search:
  "length (index_search embeddings q k) = k"
  by (simp add: index_search_def distances_def)





lemma find_Table_cases:
  assumes "find_similar_properties e df us up ul am = Inr (Table out)"
  obtains rows M where "structured_filter e df us up ul = Inr (Inr rows)"
    "rows \<noteq> []" "distinct (map link rows)"
    "fit_transform (amenity_corpus rows am) = Some M"
    "out = map (nth rows) (take 5 (nearest (distances (butlast M) (last M))))"
proof -
  from assms obtain rows where f: "structured_filter e df us up ul = Inr (Inr rows)"
    by (auto simp: find_similar_properties_def split: sum.splits)
  from filter_rows_distinct [OF f] have ne: "rows \<noteq> []" and d: "distinct (map link rows)"
    by simp_all
  from assms f have r: "rank_and_project rows am = Inr (Table out)"
    by (simp add: find_is_rank)
  then obtain M where M: "fit_transform (amenity_corpus rows am) = Some M"
    by (cases "fit_transform (amenity_corpus rows am)") (auto simp: rank_and_project_ValueError)
  from rank_and_project_Some [OF ne d M] r
  have "out = map (nth rows) (take 5 (nearest (distances (butlast M) (last M))))" by simp
  with f ne d M that show ?thesis by blast
qed




lemma ranked_table:
  assumes "structured_filter re_compile df user_size user_price user_location = Inr (Inr rows)"
    and "fit_transform (amenity_corpus rows user_amenities) = Some M"
  shows "length (index_search (butlast M) (last M) 10) = 10 \<and>
         (\<exists>out. find_similar_properties re_compile df user_size user_price user_location
                   user_amenities = Inr (Table out) \<and>
                out = map (nth rows) (take 5 (nearest (distances (butlast M) (last M)))) \<and>
                length out = min 5 (length rows) \<and> 1 \<le> length out \<and> length out \<le> 5 \<and>
                distinct (map link out) \<and> distinct out \<and> set out \<subseteq> set rows)"
proof -
  let ?ds = "distances (butlast M) (last M)"
  let ?ps = "take 5 (nearest ?ds)"
  let ?out = "map (nth rows) ?ps"
  from filter_rows_distinct [OF assms(1)] have ne: "rows \<noteq> []" and d: "distinct (map link rows)"
    by simp_all
  have lend: "length ?ds = length rows" using assms(2) by (rule length_distances)
  have res: "find_similar_properties re_compile df user_size user_price user_location
               user_amenities = Inr (Table ?out)"
    using find_is_rank [OF assms(1)] rank_and_project_Some [OF ne d assms(2)] by simp
  have len: "length ?out = min 5 (length rows)" by (simp add: lend min.commute)
  have "set ?ps \<subseteq> set (nearest ?ds)" by (rule set_take_subset)
  then have sub: "set ?ps \<subseteq> {0..<length rows}" by (simp add: lend)
  have lt: "\<forall>i \<in> set ?ps. i < length rows"
  proof
    fix i assume "i \<in> set ?ps"
    with sub have "i \<in> {0..<length rows}" by (rule subsetD)
    then show "i < length rows" by simp
  qed
  have dps: "distinct ?ps" by (rule distinct_take) (rule distinct_nearest)
  have dl: "distinct (map link ?out)" by (rule distinct_links_nth [OF d dps lt])
  then have dout: "distinct ?out" by (rule distinct_map_distinct)
  have ss: "set ?out \<subseteq> set rows" using lt by auto
  from ne have "1 \<le> length rows" by (cases rows) simp_all
  with len have l1: "1 \<le> length ?out" and l5: "length ?out \<le> 5" by simp_all
  from res len l1 l5 dl dout ss length_index_search [of "butlast M" "last M" 10]
  show ?thesis by blast
qed


text \<open>
  C8 (as amended). When the filter leaves rows, the function raises \<^verbatim>\<open>ValueError\<close>
  exactly when neither the joined amenity text of any surviving row nor that of the
  query contains a token; it returns no empty result then.
\<close>

theorem C8_empty_vocabulary_raises:
  assumes "structured_filter re_compile df user_size user_price user_location = Inr (Inr rows)"
  shows "find_similar_properties re_compile df user_size user_price user_location user_amenities
           = Inl ValueError
         \<longleftrightarrow> (\<forall>r \<in> set rows. tokenize (join_space (amenities r)) = []) \<and>
             tokenize (join_space user_amenities) = []"
proof -
  from filter_rows_distinct [OF assms] have ne: "rows \<noteq> []" and d: "distinct (map link rows)"
    by simp_all
  have voc: "fit_transform (amenity_corpus rows user_amenities) = None
         \<longleftrightarrow> (\<forall>r \<in> set rows. tokenize (join_space (amenities r)) = []) \<and>
             tokenize (join_space user_amenities) = []"
    by (auto simp: fit_transform_None_iff amenity_corpus_def)
  show ?thesis
  proof (cases "fit_transform (amenity_corpus rows user_amenities)")
    case None
    with voc find_is_rank [OF assms] rank_and_project_ValueError show ?thesis by simp
  next
    case (Some M)
    with voc find_is_rank [OF assms] rank_and_project_Some [OF ne d Some] show ?thesis by simp
  qed
qed

text \<open>
  C10. The kind of the result depends on the branch: an exception of the filter is
  raised; each early return of the filter gives a bare string, one of the three
  sentences; past the filter the function raises \<^verbatim>\<open>ValueError\<close> or returns a non-empty
  table of projected rows. A string is returned only on the early returns, and an empty
  table never: emptiness is told by the sentence alone.
\<close>

theorem C10_result_depends_on_branch:
  "(\<forall>err. structured_filter re_compile df user_size user_price user_location = Inl err \<longrightarrow>
      find_similar_properties re_compile df user_size user_price user_location user_amenities
        = Inl err) \<and>
   (\<forall>m. structured_filter re_compile df user_size user_price user_location = Inr (Inl m) \<longrightarrow>
      find_similar_properties re_compile df user_size user_price user_location user_amenities
        = Inr (Message m) \<and> m \<in> {msg_size, msg_location, msg_price}) \<and>
   (\<forall>rows. structured_filter re_compile df user_size user_price user_location = Inr (Inr rows) \<longrightarrow>
      find_similar_properties re_compile df user_size user_price user_location user_amenities
        = Inl ValueError \<or>
      (\<exists>out. find_similar_properties re_compile df user_size user_price user_location
                user_amenities = Inr (Table out) \<and> out \<noteq> [])) \<and>
   (\<forall>m. find_similar_properties re_compile df user_size user_price user_location user_amenities
        = Inr (Message m) \<longrightarrow>
      structured_filter re_compile df user_size user_price user_location = Inr (Inl m)) \<and>
   find_similar_properties re_compile df user_size user_price user_location user_amenities
     \<noteq> Inr (Table [])"
proof -
  let ?f = "structured_filter re_compile df user_size user_price user_location"
  let ?r = "find_similar_properties re_compile df user_size user_price user_location user_amenities"
  have a: "?f = Inl err \<longrightarrow> ?r = Inl err" for err
    by (simp add: find_similar_properties_def)
  have b: "?f = Inr (Inl m) \<longrightarrow> ?r = Inr (Message m) \<and> m \<in> {msg_size, msg_location, msg_price}" for m
    by (auto simp: find_similar_properties_def structured_filter_def Let_def
        split: if_splits option.splits)
  have c: "?f = Inr (Inr rows) \<longrightarrow>
             ?r = Inl ValueError \<or> (\<exists>out. ?r = Inr (Table out) \<and> out \<noteq> [])" for rows
  proof
    assume f: "?f = Inr (Inr rows)"
    show "?r = Inl ValueError \<or> (\<exists>out. ?r = Inr (Table out) \<and> out \<noteq> [])"
    proof (cases "fit_transform (amenity_corpus rows user_amenities)")
      case None
      with find_is_rank [OF f] rank_and_project_ValueError show ?thesis by simp
    next
      case (Some M)
      from ranked_table [OF f Some] obtain out where
        "?r = Inr (Table out)" "1 \<le> length out" by blast
      moreover from this(2) have "out \<noteq> []" by auto
      ultimately show ?thesis by blast
    qed
  qed
  have d: "?r = Inr (Message m) \<longrightarrow> ?f = Inr (Inl m)" for m
    using rank_and_project_no_message
    by (auto simp: find_similar_properties_def split: sum.splits)
  have e: "?r \<noteq> Inr (Table [])"
  proof
    assume t: "?r = Inr (Table [])"
    then obtain rows where "?f = Inr (Inr rows)" by (rule find_Table_cases)
    with c [of rows] t show False by auto
  qed
  from a b c d e show ?thesis by blast
qed

section \<open>The query without amenities\<close>

lemma idf_pos: "d \<le> n \<Longrightarrow> 0 < idf n d"
proof -
  assume "d \<le> n"
  then have "1 \<le> (1 + real n) / (1 + real d)" by simp
  then have "0 \<le> ln ((1 + real n) / (1 + real d))" by (rule ln_ge_zero)
  then show ?thesis unfolding idf_def by linarith
qed




lemma sum_squares_nonneg: "0 \<le> (\<Sum>x\<leftarrow>v. x\<^sup>2)" for v :: "real list"
  by (rule sum_list_nonneg) auto




lemma length_l2_normalize [simp]: "length (l2_normalize v) = length v"
  by (simp add: l2_normalize_def)


lemma length_tfidf_row [simp]: "length (tfidf_row docs vocab d) = length vocab"
  by (simp add: tfidf_row_def)






section \<open>The functions on the example tables\<close>

lemmas ev_defs3 = ev_defs2 flat_bare_def

lemmas tok_defs = tokenize_def lower_def lower_char_def word_chars_def


lemma l2_normalize_first: "0 < x \<Longrightarrow> l2_normalize [x, 0] = [1, 0]"
  by (simp add: l2_normalize_def l2_norm_def)

lemma l2_normalize_second: "0 < x \<Longrightarrow> l2_normalize [0, x] = [0, 1]"
  by (simp add: l2_normalize_def l2_norm_def)


lemma filter_gym_pool:
  "structured_filter no_regex [flat1, flat4, flat2] (Some 2) (Some 120000) (Some ''Mumbai'')
     = Inr (Inr [flat1, flat2])"
  by (simp add: ev_defs3)

lemma corpus_gym_pool: "amenity_corpus [flat1, flat2] [''pool''] = [''gym'', ''pool'', ''pool'']"
  by (simp add: amenity_corpus_def ev_defs3)

lemma tokens_gym_pool:
  "map tokenize [''gym'', ''pool'', ''pool''] = [[''gym''], [''pool''], [''pool'']]"
  by (simp add: tok_defs)

lemma matrix_gym_pool:
  "fit_transform (amenity_corpus [flat1, flat2] [''pool'']) = Some [[1, 0], [0, 1], [0, 1]]"
  unfolding corpus_gym_pool fit_transform_def Let_def tokens_gym_pool
  by (simp add: vocabulary_def tfidf_row_def doc_freq_def idf_pos
      l2_normalize_first l2_normalize_second)

lemma distances_gym_pool: "distances [[1, 0], [0, 1]] [0, 1] = [2, 0]"
  by (simp add: distances_def l2sqr_def)

lemma nearest_gym_pool: "nearest [2, 0::real] = [1, 0]"
  by (simp add: nearest_def)

lemma find_gym_pool:
  "find_similar_properties no_regex [flat1, flat4, flat2] (Some 2) (Some 120000) (Some ''Mumbai'')
     [''pool''] = Inr (Table [flat2, flat1])"
proof -
  have "distinct (map link [flat1, flat2])" by (simp add: ev_defs3)
  from rank_and_project_Some [OF _ this matrix_gym_pool] find_is_rank [OF filter_gym_pool]
  show ?thesis by (simp add: distances_gym_pool nearest_gym_pool)
qed










lemma filter_bare:
  "structured_filter no_regex [flat_bare, flat4] (Some 2) (Some 120000) (Some ''mumbai'')
     = Inr (Inr [flat_bare])"
  by (simp add: ev_defs3)

text \<open>
  C8 as the specification states it fails: with no token in any amenity text the function raises
  \<^verbatim>\<open>ValueError\<close>; it returns no empty result and no reason.
\<close>

theorem C8_counterexample:
  "structured_filter no_regex [flat_bare, flat4] (Some 2) (Some 120000) (Some ''mumbai'')
     = Inr (Inr [flat_bare]) \<and>
   vocabulary (map tokenize (amenity_corpus [flat_bare] [])) = [] \<and>
   find_similar_properties no_regex [flat_bare, flat4] (Some 2) (Some 120000) (Some ''mumbai'') []
     = Inl ValueError \<and>
   find_similar_properties no_regex [flat_bare, flat4] (Some 2) (Some 120000) (Some ''mumbai'') []
     \<noteq> Inr (Message ''no-amenity-vocabulary'')"
proof -
  have v: "vocabulary (map tokenize (amenity_corpus [flat_bare] [])) = []"
    by (simp add: vocabulary_def amenity_corpus_def ev_defs3 tok_defs)
  then have "fit_transform (amenity_corpus [flat_bare] []) = None"
    by (simp add: fit_transform_def Let_def)
  from rank_and_project_ValueError [OF this] find_is_rank [OF filter_bare]
  have "find_similar_properties no_regex [flat_bare, flat4] (Some 2) (Some 120000)
          (Some ''mumbai'') [] = Inl ValueError"
    by simp
  with filter_bare v show ?thesis by simp
qed

theorem C8_empty_vocabulary_raises_witness:
  "structured_filter no_regex [flat_bare, flat4] (Some 2) (Some 120000) (Some ''mumbai'')
     = Inr (Inr [flat_bare]) \<and>
   tokenize (join_space (amenities flat_bare)) = [] \<and>
   tokenize (join_space [''a'', ''&'']) = [] \<and>
   find_similar_properties no_regex [flat_bare, flat4] (Some 2) (Some 120000) (Some ''mumbai'')
     [''a'', ''&''] = Inl ValueError \<and>
   tokenize (join_space [''wifi'']) = [''wifi''] \<and>
   find_similar_properties no_regex [flat_bare, flat4] (Some 2) (Some 120000) (Some ''mumbai'')
     [''wifi''] \<noteq> Inl ValueError"
proof -
  have t1: "tokenize (join_space (amenities flat_bare)) = []"
    by (simp add: ev_defs3 tok_defs)
  have t2: "tokenize (join_space [''a'', ''&'']) = []"
    by (simp add: tok_defs)
  have t3: "tokenize (join_space [''wifi'']) = [''wifi'']"
    by (simp add: tok_defs)
  from C8_empty_vocabulary_raises [OF filter_bare, of "[''a'', ''&'']"] t1 t2
  have a: "find_similar_properties no_regex [flat_bare, flat4] (Some 2) (Some 120000)
          (Some ''mumbai'') [''a'', ''&''] = Inl ValueError"
    by simp
  from C8_empty_vocabulary_raises [OF filter_bare, of "[''wifi'']"] t3
  have b: "find_similar_properties no_regex [flat_bare, flat4] (Some 2) (Some 120000)
          (Some ''mumbai'') [''wifi''] \<noteq> Inl ValueError"
    by simp
  from filter_bare t1 t2 t3 a b show ?thesis by simp
qed

theorem C10_result_depends_on_branch_witness:
  "structured_filter no_regex [flat4] (Some 2) (Some 120000) (Some ''Mumbai'') = Inr (Inl msg_size) \<and>
   find_similar_properties no_regex [flat4] (Some 2) (Some 120000) (Some ''Mumbai'') [''gym'']
     = Inr (Message msg_size) \<and>
   structured_filter no_regex [flat1, flat4, flat2] (Some 2) (Some 120000) (Some ''Mumbai'')
     = Inr (Inr [flat1, flat2]) \<and>
   find_similar_properties no_regex [flat1, flat4, flat2] (Some 2) (Some 120000) (Some ''Mumbai'')
     [''pool''] = Inr (Table [flat2, flat1]) \<and>
   find_similar_properties no_regex [flat1, flat4, flat2] (Some 2) (Some 120000) (Some ''Mumbai'')
     [''pool''] \<noteq> Inr (Message msg_size)"
proof -
  have f: "structured_filter no_regex [flat4] (Some 2) (Some 120000) (Some ''Mumbai'')
             = Inr (Inl msg_size)"
    by (simp add: ev_defs3)
  from C10_result_depends_on_branch [of no_regex "[flat4]" "Some 2" "Some 120000" "Some ''Mumbai''"
      "[''gym'']"] f
  have a: "find_similar_properties no_regex [flat4] (Some 2) (Some 120000) (Some ''Mumbai'') [''gym'']
     = Inr (Message msg_size)"
    by blast
  from C10_result_depends_on_branch [of no_regex "[flat1, flat4, flat2]" "Some 2" "Some 120000"
      "Some ''Mumbai''" "[''pool'']"] filter_gym_pool
  have b: "find_similar_properties no_regex [flat1, flat4, flat2] (Some 2) (Some 120000)
      (Some ''Mumbai'') [''pool''] \<noteq> Inr (Message msg_size)"
    by auto
  from f a b filter_gym_pool find_gym_pool show ?thesis by simp
qed

end
